theory Spec2Isabelle
  imports Main "HOL-Library.AList" "HOL-Library.Sublist"
begin

section \<open>The DMMF data model\<close>

text \<open>
  The document types the transform reads and writes (namespace DMMF). Only the
  properties the transform touches are modelled; parts it carries through
  untouched (mappings, queries, mutations, the payload of an output type) are
  type parameters. Optional properties (\<open>isRelationFilter?\<close>, \<open>atLeastOne?\<close>, ...)
  are options: \<open>None\<close> is an absent property. A field's \<open>kind\<close> is one of the
  strings \<open>scalar\<close>, \<open>relation\<close> and \<open>enum\<close>; the transform only ever compares it
  with \<open>relation\<close>. Strings are lists of characters: the transform only tests
  suffixes and substrings and cuts at positions, which read the same on any
  alphabet.
\<close>

datatype FieldKind = Scalar | Relation | EnumKind

record Field =
  f_name :: string
  f_type :: string
  f_kind :: FieldKind
  f_isList :: bool
  f_isRequired :: bool

record Model =
  m_name :: string
  m_fields :: "Field list"

record Enum =
  e_name :: string
  e_values :: "string list"

record SchemaArg =
  a_name :: string
  a_type :: "string list"
  a_isList :: bool
  a_isRequired :: bool
  a_isEnum :: bool
  a_isScalar :: bool
  a_isRelationFilter :: "bool option"

record InputType =
  i_name :: string
  i_args :: "SchemaArg list"
  i_atLeastOne :: "bool option"
  i_atMostOne :: "bool option"
  i_isWhereType :: "bool option"
  i_isOrderType :: "bool option"

record 'o OutputType =
  o_name :: string
  o_rest :: 'o

record Datamodel =
  models :: "Model list"

record ('o, 'q) Schema =
  enums :: "Enum list"
  queries :: 'q
  mutations :: 'q
  outputTypes :: "'o OutputType list"
  inputTypes :: "InputType list"

record ('o, 'q, 'mp) Document =
  datamodel :: Datamodel
  mappings :: 'mp
  schema :: "('o, 'q) Schema"

section \<open>String and array primitives of the host language\<close>

text \<open>\<open>s.startsWith(p)\<close>, by recursion on both strings.\<close>

fun startsWith :: "string \<Rightarrow> string \<Rightarrow> bool" where
  "startsWith s [] = True"
| "startsWith [] (p # ps) = False"
| "startsWith (c # cs) (p # ps) = (c = p \<and> startsWith cs ps)"

text \<open>\<open>s.endsWith(p)\<close>: the last \<open>length p\<close> characters of \<open>s\<close> are \<open>p\<close>.\<close>

definition endsWith :: "string \<Rightarrow> string \<Rightarrow> bool" where
  "endsWith s p = startsWith (rev s) (rev p)"

text \<open>\<open>s.includes(p)\<close>: \<open>p\<close> occurs at some position of \<open>s\<close>.\<close>

fun includes_str :: "string \<Rightarrow> string \<Rightarrow> bool" where
  "includes_str [] p = (p = [])"
| "includes_str (c # cs) p = (startsWith (c # cs) p \<or> includes_str cs p)"

text \<open>
  \<open>s.lastIndexOf(p)\<close>: the greatest position at which \<open>p\<close> occurs in \<open>s\<close>,
  and \<open>-1\<close> when it occurs nowhere.
\<close>

fun lastIndexOf :: "string \<Rightarrow> string \<Rightarrow> int" where
  "lastIndexOf [] p = (if p = [] then 0 else - 1)"
| "lastIndexOf (c # cs) p =
     (let r = lastIndexOf cs p
      in if 0 \<le> r then r + 1 else if startsWith (c # cs) p then 0 else - 1)"

text \<open>
  \<open>s.slice(start, end)\<close>: a negative index counts from the end of the string,
  and both indices are clamped to the string.
\<close>

definition slice :: "string \<Rightarrow> int \<Rightarrow> int \<Rightarrow> string" where
  "slice s start end' =
     (let len = int (length s);
          from = (if start < 0 then max (len + start) 0 else min start len);
          to = (if end' < 0 then max (len + end') 0 else min end' len)
      in take (nat (to - from)) (drop (nat from) s))"

text \<open>
  A \<open>Dictionary<T>\<close> is an object used as a map from strings. Its keys here all
  end in \<open>Filter\<close>, so none is an array index and none is a property of the
  object prototype: \<open>Object.values\<close> lists the values in the order their keys
  were first written, which is what an association list extended at its end
  keeps. \<open>d[k]\<close> is \<open>map_of d k\<close> and \<open>d[k] = v\<close> is \<open>AList.update k v d\<close>.
\<close>

type_synonym 'v Dictionary = "(string \<times> 'v) list"

definition Object_values :: "'v Dictionary \<Rightarrow> 'v list" where
  "Object_values d = map snd d"

text \<open>
  Modelled from the spec: \<open>uniqBy\<close> is imported from \<open>./utils/common\<close>, which is
  not among the sources. The spec's finisher says "deduplicate ... by name,
  first occurrence wins": the list is scanned from the left and an element is
  kept when no element kept so far has its key.
\<close>

fun uniqBy_loop :: "('a \<Rightarrow> 'k) \<Rightarrow> 'a list \<Rightarrow> 'a list \<Rightarrow> 'a list" where
  "uniqBy_loop f acc [] = acc"
| "uniqBy_loop f acc (x # xs) =
     (if f x \<in> set (map f acc) then uniqBy_loop f acc xs
      else uniqBy_loop f (acc @ [x]) xs)"

definition uniqBy :: "'a list \<Rightarrow> ('a \<Rightarrow> 'k) \<Rightarrow> 'a list" where
  "uniqBy xs f = uniqBy_loop f [] xs"

section \<open>The filter type factory\<close>

definition getFilterName :: "string \<Rightarrow> bool \<Rightarrow> string" where
  "getFilterName type isRequired =
     (if isRequired then [] else ''Nullable'') @ type @ ''Filter''"

definition getWhereInputName :: "string \<Rightarrow> string" where
  "getWhereInputName type = type @ ''WhereInput''"

definition getScalarArg :: "string \<Rightarrow> string list \<Rightarrow> bool \<Rightarrow> SchemaArg" where
  "getScalarArg name type isList =
     \<lparr> a_name = name, a_type = type, a_isList = isList, a_isRequired = False,
       a_isEnum = False, a_isScalar = True, a_isRelationFilter = None \<rparr>"

definition getScalarArgs :: "string list \<Rightarrow> string list \<Rightarrow> bool \<Rightarrow> SchemaArg list" where
  "getScalarArgs names type isList = map (\<lambda>name. getScalarArg name type isList) names"

definition getInclusionFilters :: "string \<Rightarrow> SchemaArg list" where
  "getInclusionFilters type = getScalarArgs [''in'', ''notIn''] [type] True"

definition getAlphanumericFilters :: "string \<Rightarrow> SchemaArg list" where
  "getAlphanumericFilters type = getScalarArgs [''lt'', ''lte'', ''gt'', ''gte''] [type] False"

definition getStringFilters :: "string \<Rightarrow> SchemaArg list" where
  "getStringFilters type =
     getScalarArgs [''contains'', ''startsWith'', ''endsWith''] [type] False"

definition getBaseFilters :: "string \<Rightarrow> bool \<Rightarrow> SchemaArg list" where
  "getBaseFilters type isRequired =
     (let filterName = getFilterName type isRequired;
          nullArray = (if isRequired then [] else [''null''])
      in getScalarArgs [''equals''] ([type] @ nullArray) False
         @ getScalarArgs [''not''] ([type] @ nullArray @ [filterName]) False)"

text \<open>
  The third parameter is the source's \<open>isEnum = false\<close>: a caller that leaves it
  out passes \<open>False\<close>.
\<close>

definition getScalarFilterArgs :: "string \<Rightarrow> bool \<Rightarrow> bool \<Rightarrow> SchemaArg list" where
  "getScalarFilterArgs type isRequired isEnum =
     (if isEnum then getBaseFilters type isRequired @ getInclusionFilters type
      else if type = ''String'' \<or> type = ''ID'' \<or> type = ''UUID'' then
        getBaseFilters type isRequired @ getInclusionFilters type
        @ getAlphanumericFilters type @ getStringFilters type
      else if type = ''Int'' \<or> type = ''Float'' \<or> type = ''DateTime'' then
        getBaseFilters type isRequired @ getInclusionFilters type
        @ getAlphanumericFilters type
      else if type = ''Boolean'' then getBaseFilters type isRequired
      else [])"

definition getRelationFilterArgs :: "string \<Rightarrow> SchemaArg list" where
  "getRelationFilterArgs type =
     getScalarArgs [''every'', ''some'', ''none''] [getWhereInputName type] False"

definition makeFilterType :: "string \<Rightarrow> bool \<Rightarrow> bool \<Rightarrow> InputType" where
  "makeFilterType type isRequired isScalar =
     \<lparr> i_name = getFilterName type (isRequired \<or> \<not> isScalar),
       i_args = (if isScalar then getScalarFilterArgs type isRequired False
                 else getRelationFilterArgs type),
       i_atLeastOne = Some True, i_atMostOne = None,
       i_isWhereType = None, i_isOrderType = None \<rparr>"

section \<open>The where pass\<close>

text \<open>
  The callback of \<open>.map\<close> over the model's fields: it writes the field's filter
  type into the cache \<open>filterTypes\<close> when the key is new, and returns the arg.
  The cache is passed in and returned.
\<close>

definition whereFieldArg ::
  "InputType Dictionary \<Rightarrow> Field \<Rightarrow> SchemaArg \<times> InputType Dictionary" where
  "whereFieldArg filterTypes f =
     (let key = getFilterName (f_type f) (f_isRequired f \<or> f_kind f = Relation);
          filterTypes' =
            (if map_of filterTypes key = None then
               AList.update key
                 (makeFilterType (f_type f) (f_isRequired f) (f_kind f \<noteq> Relation))
                 filterTypes
             else filterTypes);
          typeList =
            (if f_kind f \<noteq> Relation then [f_type f] else [])
            @ [getFilterName (f_type f) (f_isRequired f \<or> f_kind f = Relation)]
            @ (if \<not> f_isRequired f \<and> f_kind f \<noteq> Relation then [''null''] else [])
      in (\<lparr> a_name = f_name f, a_type = typeList, a_isList = False,
            a_isRequired = False, a_isEnum = False, a_isScalar = False,
            a_isRelationFilter = Some False \<rparr>,
          filterTypes'))"

fun whereFieldArgs ::
  "InputType Dictionary \<Rightarrow> Field list \<Rightarrow> SchemaArg list \<times> InputType Dictionary" where
  "whereFieldArgs filterTypes [] = ([], filterTypes)"
| "whereFieldArgs filterTypes (f # fs) =
     (let (a, filterTypes1) = whereFieldArg filterTypes f;
          (as, filterTypes2) = whereFieldArgs filterTypes1 fs
      in (a # as, filterTypes2))"

text \<open>The filter of the fields that get a synthesized arg.\<close>

definition synthesized :: "Field \<Rightarrow> bool" where
  "synthesized f = (if f_kind f = Relation then f_isList f else \<not> f_isList f)"

text \<open>
  One iteration of the loop over \<open>document.schema.inputTypes\<close>, on the state
  \<open>(inputTypes, filterTypes)\<close>.
\<close>

definition whereStep ::
  "Model list \<Rightarrow> InputType list \<times> InputType Dictionary \<Rightarrow> InputType
     \<Rightarrow> InputType list \<times> InputType Dictionary" where
  "whereStep ms st type =
     (let (inputTypes', filterTypes) = st in
      if \<not> endsWith (i_name type) ''WhereInput'' then (inputTypes' @ [type], filterTypes)
      else
        let index = lastIndexOf (i_name type) ''WhereInput'';
            modelName = slice (i_name type) 0 index
        in case find (\<lambda>m. m_name m = modelName) ms of
             None \<Rightarrow> (inputTypes' @ [type], filterTypes)
           | Some model \<Rightarrow>
               let whiteList = [''AND'', ''OR'', ''NOT'']
                     @ map f_name
                         (filter (\<lambda>f. f_kind f = Relation \<and> \<not> f_isList f) (m_fields model));
                   args = map (\<lambda>a. a\<lparr> a_isRelationFilter := Some True \<rparr>)
                            (filter (\<lambda>a. a_name a \<in> set whiteList) (i_args type));
                   (fargs, filterTypes') =
                      whereFieldArgs filterTypes (filter synthesized (m_fields model));
                   newType = \<lparr> i_name = i_name type, i_args = fargs @ args,
                               i_atLeastOne = Some True, i_atMostOne = None,
                               i_isWhereType = Some True, i_isOrderType = None \<rparr>
               in (inputTypes' @ [newType], filterTypes'))"

text \<open>
  The type one iteration pushes onto \<open>inputTypes\<close>, read off the loop body run on
  an empty state; and the cache key of a field, which the source writes out
  three times.
\<close>

definition pushedType :: "Model list \<Rightarrow> InputType \<Rightarrow> InputType" where
  "pushedType ms type = last (fst (whereStep ms ([], []) type))"

abbreviation filterKey :: "Field \<Rightarrow> string" where
  "filterKey f \<equiv> getFilterName (f_type f) (f_isRequired f \<or> f_kind f = Relation)"

definition transformWhereInputTypes ::
  "('o, 'q, 'mp) Document \<Rightarrow> ('o, 'q, 'mp) Document" where
  "transformWhereInputTypes document =
     (let types = inputTypes (schema document);
          (inputTypes', filterTypes) =
             foldl (whereStep (models (datamodel document))) ([], []) types;
          scalarFilters = Object_values filterTypes
      in \<lparr> datamodel = datamodel document, mappings = mappings document,
           schema = (schema document)\<lparr> inputTypes := inputTypes' @ scalarFilters \<rparr> \<rparr>)"

section \<open>The order pass\<close>

text \<open>The reducer over an enum's values.\<close>

definition argNames :: "string list \<Rightarrow> string list" where
  "argNames vs =
     foldl (\<lambda>acc curr.
              if endsWith curr ''ASC''
              then acc @ [slice curr 0 (lastIndexOf curr ''_ASC'')]
              else acc) [] vs"

definition orderInputType :: "Enum \<Rightarrow> InputType" where
  "orderInputType type =
     \<lparr> i_name = e_name type,
       i_args = map (\<lambda>name. \<lparr> a_name = name, a_type = [''OrderByArg''], a_isList = False,
                              a_isRequired = False, a_isEnum = False, a_isScalar = True,
                              a_isRelationFilter = Some False \<rparr>)
                    (argNames (e_values type)),
       i_atLeastOne = Some True, i_atMostOne = Some True,
       i_isWhereType = None, i_isOrderType = Some True \<rparr>"

text \<open>
  One iteration of the loop over \<open>document.schema.enums\<close>, on the state
  \<open>(inputTypes, enums)\<close>. The source pushes onto the array of the document it
  was given; that document is the where pass's fresh result, so the state is
  passed here.
\<close>

definition orderStep ::
  "InputType list \<times> Enum list \<Rightarrow> Enum \<Rightarrow> InputType list \<times> Enum list" where
  "orderStep st type =
     (let (inputTypes', enums') = st in
      if \<not> endsWith (e_name type) ''OrderByInput'' then (inputTypes', enums' @ [type])
      else (inputTypes' @ [orderInputType type], enums'))"

definition OrderByArg :: Enum where
  "OrderByArg = \<lparr> e_name = ''OrderByArg'', e_values = [''asc'', ''desc''] \<rparr>"

definition transformOrderInputTypes ::
  "('o, 'q, 'mp) Document \<Rightarrow> ('o, 'q, 'mp) Document" where
  "transformOrderInputTypes document =
     (let (inputTypes', enums') =
             foldl orderStep (inputTypes (schema document), [OrderByArg])
               (enums (schema document))
      in \<lparr> datamodel = datamodel document, mappings = mappings document,
           schema = (schema document)\<lparr> inputTypes := inputTypes', enums := enums' \<rparr> \<rparr>)"

section \<open>The finisher\<close>

definition filterInputTypes :: "InputType list \<Rightarrow> InputType list" where
  "filterInputTypes types =
     filter (\<lambda>o'. \<not> includes_str (i_name o') ''Subscription'' \<and> i_name o' \<noteq> ''MutationType'')
       (uniqBy types i_name)"

definition filterOutputTypes :: "'o OutputType list \<Rightarrow> 'o OutputType list" where
  "filterOutputTypes types =
     filter (\<lambda>o'. \<not> endsWith (o_name o') ''PreviousValues''
                 \<and> \<not> includes_str (o_name o') ''Subscription'')
       (uniqBy types o_name)"

definition transformDmmf :: "('o, 'q, 'mp) Document \<Rightarrow> ('o, 'q, 'mp) Document" where
  "transformDmmf document =
     (let doc = transformOrderInputTypes (transformWhereInputTypes document)
      in \<lparr> datamodel = datamodel doc, mappings = mappings doc,
           schema = \<lparr> enums = enums (schema doc), queries = queries (schema doc),
                      mutations = mutations (schema doc),
                      outputTypes = filterOutputTypes (outputTypes (schema doc)),
                      inputTypes = filterInputTypes (inputTypes (schema doc)) \<rparr> \<rparr>)"

section \<open>Example documents\<close>

text \<open>
  The entity of the spec's scenario, \<open>User { id: ID!, name: String, posts: Post[],
  profile: Profile }\<close>, a second entity with a scalar list and an enum field, and
  a small document over both: where types with and without a model, a repeated
  input type name, change-event types, an order-by enum and a plain enum.
\<close>

definition userModel :: Model where
  "userModel =
     \<lparr> m_name = ''User'',
       m_fields =
         [\<lparr> f_name = ''id'', f_type = ''ID'', f_kind = Scalar, f_isList = False, f_isRequired = True \<rparr>,
          \<lparr> f_name = ''name'', f_type = ''String'', f_kind = Scalar, f_isList = False, f_isRequired = False \<rparr>,
          \<lparr> f_name = ''posts'', f_type = ''Post'', f_kind = Relation, f_isList = True, f_isRequired = False \<rparr>,
          \<lparr> f_name = ''profile'', f_type = ''Profile'', f_kind = Relation, f_isList = False, f_isRequired = False \<rparr>] \<rparr>"

definition postModel :: Model where
  "postModel =
     \<lparr> m_name = ''Post'',
       m_fields =
         [\<lparr> f_name = ''id'', f_type = ''ID'', f_kind = Scalar, f_isList = False, f_isRequired = True \<rparr>,
          \<lparr> f_name = ''tags'', f_type = ''String'', f_kind = Scalar, f_isList = True, f_isRequired = False \<rparr>,
          \<lparr> f_name = ''status'', f_type = ''Status'', f_kind = EnumKind, f_isList = False, f_isRequired = True \<rparr>,
          \<lparr> f_name = ''author'', f_type = ''User'', f_kind = Relation, f_isList = False, f_isRequired = True \<rparr>] \<rparr>"

definition plainArg :: "string \<Rightarrow> string \<Rightarrow> SchemaArg" where
  "plainArg name type =
     \<lparr> a_name = name, a_type = [type], a_isList = False, a_isRequired = False,
       a_isEnum = False, a_isScalar = False, a_isRelationFilter = None \<rparr>"

definition plainType :: "string \<Rightarrow> SchemaArg list \<Rightarrow> InputType" where
  "plainType name args =
     \<lparr> i_name = name, i_args = args, i_atLeastOne = None, i_atMostOne = None,
       i_isWhereType = None, i_isOrderType = None \<rparr>"

definition blogDocument :: "(unit, unit, unit) Document" where
  "blogDocument =
     \<lparr> datamodel = \<lparr> models = [userModel, postModel] \<rparr>,
       mappings = (),
       schema =
         \<lparr> enums =
             [\<lparr> e_name = ''UserOrderByInput'',
                e_values = [''id_ASC'', ''id_DESC'', ''name_ASC'', ''name_DESC''] \<rparr>,
              \<lparr> e_name = ''Status'', e_values = [''DRAFT'', ''PUBLISHED''] \<rparr>],
           queries = (), mutations = (),
           outputTypes =
             [\<lparr> o_name = ''User'', o_rest = () \<rparr>,
              \<lparr> o_name = ''UserPreviousValues'', o_rest = () \<rparr>,
              \<lparr> o_name = ''UserSubscriptionPayload'', o_rest = () \<rparr>,
              \<lparr> o_name = ''User'', o_rest = () \<rparr>],
           inputTypes =
             [plainType ''UserWhereInput''
                [plainArg ''AND'' ''UserWhereInput'', plainArg ''id_not'' ''ID'',
                 plainArg ''profile'' ''ProfileWhereInput''],
              plainType ''GhostWhereInput'' [plainArg ''id'' ''ID''],
              plainType ''PostWhereInput'' [plainArg ''author'' ''UserWhereInput''],
              plainType ''UserCreateInput'' [plainArg ''name'' ''String''],
              plainType ''UserSubscriptionWhereInput'' [],
              plainType ''MutationType'' [],
              plainType ''UserCreateInput'' []] \<rparr> \<rparr>"

section \<open>Facts about the string primitives\<close>

lemma startsWith_iff: "startsWith s p \<longleftrightarrow> prefix p s"
  by (induction s p rule: startsWith.induct) auto

lemma endsWith_iff: "endsWith s p \<longleftrightarrow> suffix p s"
  by (simp add: endsWith_def startsWith_iff suffix_to_prefix)

lemma includes_str_iff: "includes_str s p \<longleftrightarrow> sublist p s"
  by (induction s) (auto simp: startsWith_iff sublist_Cons_right simp del: startsWith.simps)

lemma lastIndexOf_bound:
  "0 \<le> lastIndexOf s p \<Longrightarrow> lastIndexOf s p + int (length p) \<le> int (length s)"
proof (induction s)
  case Nil
  then show ?case by (simp split: if_splits)
next
  case (Cons c cs)
  show ?case
  proof (cases "0 \<le> lastIndexOf cs p")
    case True
    with Cons.IH show ?thesis by (simp add: Let_def)
  next
    case False
    with Cons.prems have "startsWith (c # cs) p"
      by (simp add: Let_def split: if_splits)
    then have "prefix p (c # cs)"
      by (simp only: startsWith_iff)
    then have "length p \<le> length (c # cs)"
      by (rule prefix_length_le)
    with False Cons.prems show ?thesis by (simp add: Let_def split: if_splits)
  qed
qed

lemma lastIndexOf_suffix:
  "suffix p s \<Longrightarrow> lastIndexOf s p = int (length s) - int (length p)"
proof (induction s)
  case Nil
  then show ?case by simp
next
  case (Cons c cs)
  from Cons.prems consider "p = c # cs" | "suffix p cs"
    by (auto simp: suffix_Cons)
  then show ?case
  proof cases
    case 1
    have "\<not> 0 \<le> lastIndexOf cs p"
    proof
      assume nonneg: "0 \<le> lastIndexOf cs p"
      from lastIndexOf_bound [OF nonneg] nonneg have "int (length p) \<le> int (length cs)"
        by linarith
      with 1 show False by simp
    qed
    moreover have "startsWith (c # cs) p" using 1 by (simp add: startsWith_iff del: startsWith.simps)
    ultimately show ?thesis using 1 by (simp add: Let_def del: startsWith.simps)
  next
    case 2
    from Cons.IH [OF 2] have eq: "lastIndexOf cs p = int (length cs) - int (length p)" .
    from 2 have "length p \<le> length cs" by (rule suffix_length_le)
    with eq show ?thesis by (simp add: Let_def)
  qed
qed

lemma slice_lastIndexOf_suffix:
  "slice (zs @ p) 0 (lastIndexOf (zs @ p) p) = zs"
proof -
  have "lastIndexOf (zs @ p) p = int (length zs)"
    using lastIndexOf_suffix [of p "zs @ p"] by (simp add: suffix_def)
  then show ?thesis by (simp add: slice_def Let_def)
qed

section \<open>Facts about the where pass\<close>

lemma whereFieldArg_fst: "fst (whereFieldArg ft f) = fst (whereFieldArg [] f)"
  by (simp add: whereFieldArg_def Let_def)

lemma whereFieldArgs_fst:
  "fst (whereFieldArgs ft fs) = map (\<lambda>f. fst (whereFieldArg [] f)) fs"
proof (induction fs arbitrary: ft)
  case Nil
  show ?case by simp
next
  case (Cons f fs)
  show ?case
    by (simp add: split_def Let_def Cons.IH whereFieldArg_fst [of ft])
qed

lemma whereStep_fst: "fst (whereStep ms (acc, ft) t) = acc @ [pushedType ms t]"
  by (simp add: whereStep_def pushedType_def Let_def split_def
      whereFieldArgs_fst [of ft] whereFieldArgs_fst [of "[]"] split: option.splits)

lemma foldl_whereStep_fst:
  "fst (foldl (whereStep ms) (acc, ft) ts) = acc @ map (pushedType ms) ts"
proof (induction ts arbitrary: acc ft)
  case Nil
  show ?case by simp
next
  case (Cons t ts)
  obtain acc' ft' where step: "whereStep ms (acc, ft) t = (acc', ft')"
    by (cases "whereStep ms (acc, ft) t")
  with whereStep_fst [of ms acc ft t] have "acc' = acc @ [pushedType ms t]" by simp
  with step Cons.IH [of acc' ft'] show ?case by simp
qed

lemma update_absent: "map_of al k = None \<Longrightarrow> AList.update k v al = al @ [(k, v)]"
  by (induction al) (auto split: if_splits)

lemma whereFieldArg_snd:
  "snd (whereFieldArg ft f) =
     (if map_of ft (filterKey f) = None
      then ft @ [(filterKey f, makeFilterType (f_type f) (f_isRequired f) (f_kind f \<noteq> Relation))]
      else ft)"
  by (simp add: whereFieldArg_def Let_def update_absent)

lemma makeFilterType_name:
  "i_name (makeFilterType (f_type f) (f_isRequired f) (f_kind f \<noteq> Relation)) = filterKey f"
  by (simp add: makeFilterType_def)

lemma whereFieldArg_keys:
  "fst ` set (snd (whereFieldArg ft f)) = insert (filterKey f) (fst ` set ft)"
  by (auto simp: whereFieldArg_snd map_of_eq_None_iff)

lemma whereFieldArg_distinct:
  "distinct (map fst ft) \<Longrightarrow> distinct (map fst (snd (whereFieldArg ft f)))"
  by (auto simp: whereFieldArg_snd map_of_eq_None_iff)

lemma whereFieldArg_names:
  "\<forall>x\<in>set ft. i_name (snd x) = fst x \<Longrightarrow>
   (\<forall>x\<in>set (snd (whereFieldArg ft f)). i_name (snd x) = fst x)"
  by (simp add: whereFieldArg_snd makeFilterType_name)

lemma whereFieldArgs_keys:
  "fst ` set (snd (whereFieldArgs ft fs)) = fst ` set ft \<union> filterKey ` set fs"
proof (induction fs arbitrary: ft)
  case Nil
  show ?case by simp
next
  case (Cons f fs)
  have "snd (whereFieldArgs ft (f # fs)) = snd (whereFieldArgs (snd (whereFieldArg ft f)) fs)"
    by (simp add: split_def Let_def)
  then show ?case
    by (simp add: Cons.IH whereFieldArg_keys Un_commute insert_commute)
qed

lemma whereFieldArgs_distinct:
  "distinct (map fst ft) \<Longrightarrow> distinct (map fst (snd (whereFieldArgs ft fs)))"
proof (induction fs arbitrary: ft)
  case Nil
  then show ?case by simp
next
  case (Cons f fs)
  have "snd (whereFieldArgs ft (f # fs)) = snd (whereFieldArgs (snd (whereFieldArg ft f)) fs)"
    by (simp add: split_def Let_def)
  with Cons.IH [OF whereFieldArg_distinct [OF Cons.prems]] show ?case by simp
qed

lemma whereFieldArgs_names:
  "\<forall>x\<in>set ft. i_name (snd x) = fst x \<Longrightarrow>
   (\<forall>x\<in>set (snd (whereFieldArgs ft fs)). i_name (snd x) = fst x)"
proof (induction fs arbitrary: ft)
  case Nil
  then show ?case by simp
next
  case (Cons f fs)
  have "snd (whereFieldArgs ft (f # fs)) = snd (whereFieldArgs (snd (whereFieldArg ft f)) fs)"
    by (simp add: split_def Let_def)
  with Cons.IH [OF whereFieldArg_names [OF Cons.prems]] show ?case by simp
qed

lemma whereStep_snd:
  "snd (whereStep ms (acc, ft) t) =
     (if \<not> endsWith (i_name t) ''WhereInput'' then ft
      else case find (\<lambda>m. m_name m = slice (i_name t) 0 (lastIndexOf (i_name t) ''WhereInput'')) ms of
             None \<Rightarrow> ft
           | Some model \<Rightarrow> snd (whereFieldArgs ft (filter synthesized (m_fields model))))"
  by (simp add: whereStep_def Let_def split_def split: option.splits)

lemma whereStep_distinct:
  "distinct (map fst ft) \<Longrightarrow> distinct (map fst (snd (whereStep ms (acc, ft) t)))"
  by (simp add: whereStep_snd whereFieldArgs_distinct split: option.splits)

lemma whereStep_names:
  "\<forall>x\<in>set ft. i_name (snd x) = fst x \<Longrightarrow>
   (\<forall>x\<in>set (snd (whereStep ms (acc, ft) t)). i_name (snd x) = fst x)"
  by (simp add: whereStep_snd whereFieldArgs_names split: option.splits)

lemma whereStep_keys_mono:
  "fst ` set ft \<subseteq> fst ` set (snd (whereStep ms (acc, ft) t))"
  by (auto simp: whereStep_snd whereFieldArgs_keys split: option.splits)

lemma foldl_whereStep_inv:
  "distinct (map fst ft) \<Longrightarrow> \<forall>x\<in>set ft. i_name (snd x) = fst x \<Longrightarrow>
   distinct (map fst (snd (foldl (whereStep ms) (acc, ft) ts))) \<and>
   (\<forall>x\<in>set (snd (foldl (whereStep ms) (acc, ft) ts)). i_name (snd x) = fst x) \<and>
   fst ` set ft \<subseteq> fst ` set (snd (foldl (whereStep ms) (acc, ft) ts))"
proof (induction ts arbitrary: acc ft)
  case Nil
  then show ?case by simp
next
  case (Cons t ts)
  obtain acc' ft' where step: "whereStep ms (acc, ft) t = (acc', ft')"
    by (cases "whereStep ms (acc, ft) t")
  from whereStep_distinct [OF Cons.prems(1), of ms acc t] step
  have d: "distinct (map fst ft')" by simp
  from whereStep_names [OF Cons.prems(2), of ms acc t] step
  have n: "\<forall>x\<in>set ft'. i_name (snd x) = fst x" by simp
  from whereStep_keys_mono [of ft ms acc t] step
  have m: "fst ` set ft \<subseteq> fst ` set ft'" by simp
  from Cons.IH [OF d n, of acc'] have ih:
    "distinct (map fst (snd (foldl (whereStep ms) (acc', ft') ts)))"
    "\<forall>x\<in>set (snd (foldl (whereStep ms) (acc', ft') ts)). i_name (snd x) = fst x"
    "fst ` set ft' \<subseteq> fst ` set (snd (foldl (whereStep ms) (acc', ft') ts))"
    by simp_all
  from m ih(3) have "fst ` set ft \<subseteq> fst ` set (snd (foldl (whereStep ms) (acc', ft') ts))"
    by (rule subset_trans)
  with ih(1,2) step show ?case by simp
qed

lemma foldl_whereStep_keys:
  assumes "t \<in> set ts" and "endsWith (i_name t) ''WhereInput''"
    and "find (\<lambda>m. m_name m = slice (i_name t) 0 (lastIndexOf (i_name t) ''WhereInput'')) ms = Some model"
    and "f \<in> set (m_fields model)" and "synthesized f"
    and "distinct (map fst ft)" and "\<forall>x\<in>set ft. i_name (snd x) = fst x"
  shows "filterKey f \<in> fst ` set (snd (foldl (whereStep ms) (acc, ft) ts))"
  using assms
proof (induction ts arbitrary: acc ft)
  case Nil
  then show ?case by simp
next
  case (Cons u us)
  obtain acc' ft' where step: "whereStep ms (acc, ft) u = (acc', ft')"
    by (cases "whereStep ms (acc, ft) u")
  from whereStep_distinct [OF Cons.prems(6), of ms acc u] step
  have d: "distinct (map fst ft')" by simp
  from whereStep_names [OF Cons.prems(7), of ms acc u] step
  have n: "\<forall>x\<in>set ft'. i_name (snd x) = fst x" by simp
  show ?case
  proof (cases "t = u")
    case True
    have "filterKey f \<in> fst ` set (snd (whereStep ms (acc, ft) u))"
      using Cons.prems(2-5) True by (simp add: whereStep_snd whereFieldArgs_keys)
    with step have "filterKey f \<in> fst ` set ft'" by simp
    moreover from foldl_whereStep_inv [OF d n, of ms acc' us]
    have "fst ` set ft' \<subseteq> fst ` set (snd (foldl (whereStep ms) (acc', ft') us))" by simp
    ultimately have "filterKey f \<in> fst ` set (snd (foldl (whereStep ms) (acc', ft') us))"
      by (rule rev_subsetD)
    with step show ?thesis by simp
  next
    case False
    with Cons.prems(1) have "t \<in> set us" by simp
    from Cons.IH [OF this Cons.prems(2-5) d n, of acc'] step show ?thesis by simp
  qed
qed

lemma entity_resolved:
  "endsWith (n @ ''WhereInput'') ''WhereInput'' \<and>
   slice (n @ ''WhereInput'') 0 (lastIndexOf (n @ ''WhereInput'') ''WhereInput'') = n"
  by (simp only: endsWith_iff slice_lastIndexOf_suffix) (simp add: suffix_def)

lemma pushedType_other: "\<not> endsWith (i_name t) ''WhereInput'' \<Longrightarrow> pushedType ms t = t"
  by (simp add: pushedType_def whereStep_def)

lemma pushedType_unresolved:
  assumes "i_name t = n @ ''WhereInput''" and "find (\<lambda>m. m_name m = n) ms = None"
  shows "pushedType ms t = t"
  using assms entity_resolved [of n]
  by (simp add: pushedType_def whereStep_def Let_def del: find_None_iff)

lemma pushedType_resolved:
  assumes "i_name t = n @ ''WhereInput''" and "find (\<lambda>m. m_name m = n) ms = Some model"
  shows "pushedType ms t =
     \<lparr> i_name = i_name t,
       i_args =
         map (\<lambda>f. fst (whereFieldArg [] f)) (filter synthesized (m_fields model))
         @ map (\<lambda>a. a\<lparr> a_isRelationFilter := Some True \<rparr>)
             (filter (\<lambda>a. a_name a \<in> set ([''AND'', ''OR'', ''NOT'']
                  @ map f_name (filter (\<lambda>f. f_kind f = Relation \<and> \<not> f_isList f) (m_fields model))))
                (i_args t)),
       i_atLeastOne = Some True, i_atMostOne = None,
       i_isWhereType = Some True, i_isOrderType = None \<rparr>"
  using assms entity_resolved [of n]
  by (simp add: pushedType_def whereStep_def Let_def split_def whereFieldArgs_fst [of "[]"])

lemma where_inputTypes:
  "inputTypes (schema (transformWhereInputTypes d)) =
     map (pushedType (models (datamodel d))) (inputTypes (schema d))
     @ map snd (snd (foldl (whereStep (models (datamodel d))) ([], []) (inputTypes (schema d))))"
  using foldl_whereStep_fst [of "models (datamodel d)" "[]" "[]" "inputTypes (schema d)"]
  by (simp add: transformWhereInputTypes_def Let_def split_def Object_values_def)

lemma where_inputTypes_nth:
  "i < length (inputTypes (schema d)) \<Longrightarrow>
   inputTypes (schema (transformWhereInputTypes d)) ! i
     = pushedType (models (datamodel d)) (inputTypes (schema d) ! i)"
  by (simp add: where_inputTypes nth_append)

lemma whereFieldArg_name: "a_name (fst (whereFieldArg ft f)) = f_name f"
  by (simp add: whereFieldArg_def Let_def)

lemma one_named:
  assumes "distinct (map fst ft)" and "\<forall>x\<in>set ft. i_name (snd x) = fst x"
    and "n \<in> fst ` set ft"
  shows "length (filter (\<lambda>t. i_name t = n) (map snd ft)) = 1"
proof -
  from assms(2) have keys: "map i_name (map snd ft) = map fst ft" by simp
  have "length (filter (\<lambda>t. i_name t = n) (map snd ft))
      = length (filter (\<lambda>k. k = n) (map i_name (map snd ft)))"
    by (simp add: filter_map comp_def)
  also have "\<dots> = length (filter (\<lambda>k. k = n) (map fst ft))"
    by (simp only: keys)
  also from assms(1) have "\<dots> = card ({k. k = n} \<inter> set (map fst ft))"
    by (rule distinct_length_filter)
  also from assms(3) have "{k. k = n} \<inter> set (map fst ft) = {n}" by auto
  finally show ?thesis by simp
qed

lemma where_cache:
  "distinct (map fst (snd (foldl (whereStep ms) ([], []) ts))) \<and>
   (\<forall>x\<in>set (snd (foldl (whereStep ms) ([], []) ts)). i_name (snd x) = fst x)"
  using foldl_whereStep_inv [of "[]" ms "[]" ts] by simp

lemma where_appended:
  "drop (length (inputTypes (schema d))) (inputTypes (schema (transformWhereInputTypes d)))
     = Object_values (snd (foldl (whereStep (models (datamodel d))) ([], []) (inputTypes (schema d))))"
  by (simp add: where_inputTypes Object_values_def)

lemma whereFieldArg_type:
  "a_type (fst (whereFieldArg ft f)) =
     (if f_kind f \<noteq> Relation then [f_type f] else [])
     @ [filterKey f]
     @ (if \<not> f_isRequired f \<and> f_kind f \<noteq> Relation then [''null''] else [])"
  by (simp add: whereFieldArg_def Let_def)

lemma where_arg_present:
  assumes "i < length (inputTypes (schema d))"
    and "i_name (inputTypes (schema d) ! i) = m_name model @ ''WhereInput''"
    and "find (\<lambda>m. m_name m = m_name model) (models (datamodel d)) = Some model"
    and "f \<in> set (m_fields model)" and "synthesized f"
  shows "fst (whereFieldArg [] f)
           \<in> set (i_args (inputTypes (schema (transformWhereInputTypes d)) ! i))"
proof -
  from assms(1) have "inputTypes (schema (transformWhereInputTypes d)) ! i
      = pushedType (models (datamodel d)) (inputTypes (schema d) ! i)"
    by (rule where_inputTypes_nth)
  with pushedType_resolved [OF assms(2) assms(3)] assms(4,5) show ?thesis
    by simp
qed

lemma where_key_cached:
  assumes "i < length (inputTypes (schema d))"
    and "i_name (inputTypes (schema d) ! i) = m_name model @ ''WhereInput''"
    and "find (\<lambda>m. m_name m = m_name model) (models (datamodel d)) = Some model"
    and "f \<in> set (m_fields model)" and "synthesized f"
  shows "filterKey f
           \<in> fst ` set (snd (foldl (whereStep (models (datamodel d))) ([], []) (inputTypes (schema d))))"
proof -
  let ?t = "inputTypes (schema d) ! i"
  from assms(1) have mem: "?t \<in> set (inputTypes (schema d))" by simp
  from entity_resolved [of "m_name model"] assms(2)
  have ends: "endsWith (i_name ?t) ''WhereInput''"
    and strip: "slice (i_name ?t) 0 (lastIndexOf (i_name ?t) ''WhereInput'') = m_name model"
    by simp_all
  from assms(3) strip
  have found: "find (\<lambda>m. m_name m = slice (i_name ?t) 0 (lastIndexOf (i_name ?t) ''WhereInput''))
      (models (datamodel d)) = Some model"
    by simp
  show ?thesis
    by (rule foldl_whereStep_keys [OF mem ends found assms(4) assms(5)]) simp_all
qed

section \<open>Facts about the order pass and the finisher\<close>

lemma argNames_foldl:
  "foldl (\<lambda>acc curr.
            if endsWith curr ''ASC''
            then acc @ [slice curr 0 (lastIndexOf curr ''_ASC'')]
            else acc) acc vs
     = acc @ map (\<lambda>v. slice v 0 (lastIndexOf v ''_ASC'')) (filter (\<lambda>v. endsWith v ''ASC'') vs)"
  by (induction vs arbitrary: acc) simp_all

lemma argNames_eq:
  "argNames vs = map (\<lambda>v. slice v 0 (lastIndexOf v ''_ASC'')) (filter (\<lambda>v. endsWith v ''ASC'') vs)"
  by (simp add: argNames_def argNames_foldl)

lemma endsWith_ASC: "endsWith v ''_ASC'' \<Longrightarrow> endsWith v ''ASC''"
proof -
  assume "endsWith v ''_ASC''"
  then obtain n where "v = n @ ''_ASC''"
    by (auto simp: endsWith_iff suffix_def)
  then have "v = (n @ ''_'') @ ''ASC''" by simp
  then show "endsWith v ''ASC''"
    unfolding endsWith_iff suffix_def by blast
qed

lemma strip_ASC:
  assumes "endsWith v ''_ASC''"
  shows "slice v 0 (lastIndexOf v ''_ASC'') = take (length v - 4) v"
proof -
  from assms obtain n where n: "v = n @ ''_ASC''"
    by (auto simp: endsWith_iff suffix_def)
  have "slice (n @ ''_ASC'') 0 (lastIndexOf (n @ ''_ASC'') ''_ASC'') = n"
    by (rule slice_lastIndexOf_suffix)
  with n show ?thesis by simp
qed

lemma argNames_suffixed:
  assumes "\<forall>v\<in>set vs. endsWith v ''ASC'' \<longrightarrow> endsWith v ''_ASC''"
  shows "argNames vs = map (\<lambda>v. take (length v - 4) v) (filter (\<lambda>v. endsWith v ''_ASC'') vs)"
proof -
  from assms have "filter (\<lambda>v. endsWith v ''ASC'') vs = filter (\<lambda>v. endsWith v ''_ASC'') vs"
    by (intro filter_cong) (auto dest: endsWith_ASC)
  then show ?thesis
    by (simp add: argNames_eq strip_ASC)
qed

lemma foldl_orderStep:
  "foldl orderStep (its, es0) es =
     (its @ map orderInputType (filter (\<lambda>e. endsWith (e_name e) ''OrderByInput'') es),
      es0 @ filter (\<lambda>e. \<not> endsWith (e_name e) ''OrderByInput'') es)"
  by (induction es arbitrary: its es0) (simp_all add: orderStep_def)

lemma order_enums:
  "enums (schema (transformOrderInputTypes d))
     = OrderByArg # filter (\<lambda>e. \<not> endsWith (e_name e) ''OrderByInput'') (enums (schema d))"
  by (simp add: transformOrderInputTypes_def foldl_orderStep)

lemma order_inputTypes:
  "inputTypes (schema (transformOrderInputTypes d))
     = inputTypes (schema d)
       @ map orderInputType (filter (\<lambda>e. endsWith (e_name e) ''OrderByInput'') (enums (schema d)))"
  by (simp add: transformOrderInputTypes_def foldl_orderStep)

lemma order_outputTypes:
  "outputTypes (schema (transformOrderInputTypes d)) = outputTypes (schema d)"
  by (simp add: transformOrderInputTypes_def foldl_orderStep)

lemma where_enums: "enums (schema (transformWhereInputTypes d)) = enums (schema d)"
  by (simp add: transformWhereInputTypes_def Let_def split_def)

lemma where_outputTypes: "outputTypes (schema (transformWhereInputTypes d)) = outputTypes (schema d)"
  by (simp add: transformWhereInputTypes_def Let_def split_def)

lemma final_enums:
  "enums (schema (transformDmmf d))
     = OrderByArg # filter (\<lambda>e. \<not> endsWith (e_name e) ''OrderByInput'') (enums (schema d))"
  by (simp add: transformDmmf_def Let_def order_enums where_enums)

lemma final_inputTypes:
  "inputTypes (schema (transformDmmf d))
     = filterInputTypes (inputTypes (schema (transformWhereInputTypes d))
         @ map orderInputType (filter (\<lambda>e. endsWith (e_name e) ''OrderByInput'') (enums (schema d))))"
  by (simp add: transformDmmf_def Let_def order_inputTypes where_enums)

lemma final_outputTypes:
  "outputTypes (schema (transformDmmf d)) = filterOutputTypes (outputTypes (schema d))"
  by (simp add: transformDmmf_def Let_def order_outputTypes where_outputTypes)

lemma uniqBy_loop_distinct:
  "distinct (map f acc) \<Longrightarrow> distinct (map f (uniqBy_loop f acc xs))"
  by (induction xs arbitrary: acc) auto

lemma uniqBy_distinct: "distinct (map f (uniqBy xs f))"
  by (simp add: uniqBy_def uniqBy_loop_distinct)

section \<open>The where pass: claims\<close>

text \<open>
  C6. A type named \<open>...WhereInput\<close> for which no model carries the stripped name
  stays where it was in the where pass's result, unchanged. The pass is a total
  function: there is no failure to raise.
\<close>

theorem where_unresolved_entity_passes_through:
  assumes "i < length (inputTypes (schema d))"
    and "endsWith (i_name (inputTypes (schema d) ! i)) ''WhereInput''"
    and "\<forall>m\<in>set (models (datamodel d)).
           m_name m @ ''WhereInput'' \<noteq> i_name (inputTypes (schema d) ! i)"
  shows "inputTypes (schema (transformWhereInputTypes d)) ! i = inputTypes (schema d) ! i"
proof -
  from assms(2) obtain n where n: "i_name (inputTypes (schema d) ! i) = n @ ''WhereInput''"
    by (auto simp: endsWith_iff suffix_def)
  with assms(3) have "\<forall>m\<in>set (models (datamodel d)). m_name m \<noteq> n" by auto
  then have "find (\<lambda>m. m_name m = n) (models (datamodel d)) = None"
    by (simp add: find_None_iff)
  with n have "pushedType (models (datamodel d)) (inputTypes (schema d) ! i)
      = inputTypes (schema d) ! i"
    by (rule pushedType_unresolved)
  with assms(1) show ?thesis by (simp add: where_inputTypes_nth)
qed

theorem where_unresolved_entity_passes_through_witness:
  "inputTypes (schema (transformWhereInputTypes blogDocument)) ! 1
     = plainType ''GhostWhereInput'' [plainArg ''id'' ''ID'']"
proof -
  have len: "1 < length (inputTypes (schema blogDocument))"
    by (simp add: blogDocument_def)
  have nth: "inputTypes (schema blogDocument) ! 1 = plainType ''GhostWhereInput'' [plainArg ''id'' ''ID'']"
    by (simp add: blogDocument_def)
  have ends: "endsWith (i_name (inputTypes (schema blogDocument) ! 1)) ''WhereInput''"
    unfolding nth by (simp add: plainType_def endsWith_def)
  have none: "\<forall>m\<in>set (models (datamodel blogDocument)).
      m_name m @ ''WhereInput'' \<noteq> i_name (inputTypes (schema blogDocument) ! 1)"
    unfolding nth by (simp add: plainType_def blogDocument_def userModel_def postModel_def)
  from where_unresolved_entity_passes_through [OF len ends none] nth show ?thesis by simp
qed

text \<open>
  C9. In a processed where type the args are, first, one synthesized arg for
  each model field that is a list relation or a non-list scalar or enum field,
  in the model's order and under the field's name, and then the original args
  the whitelist retains. So a scalar list field and a singular relation field
  get no synthesized arg.
\<close>

theorem where_synthesized_fields:
  assumes "i < length (inputTypes (schema d))"
    and "i_name (inputTypes (schema d) ! i) = m_name model @ ''WhereInput''"
    and "find (\<lambda>m. m_name m = m_name model) (models (datamodel d)) = Some model"
  shows "let fs = filter (\<lambda>f. (f_kind f = Relation \<and> f_isList f)
                               \<or> (f_kind f \<noteq> Relation \<and> \<not> f_isList f)) (m_fields model);
             args = i_args (inputTypes (schema (transformWhereInputTypes d)) ! i)
         in take (length fs) args = map (\<lambda>f. fst (whereFieldArg [] f)) fs
          \<and> map a_name (take (length fs) args) = map f_name fs
          \<and> drop (length fs) args =
              map (\<lambda>a. a\<lparr> a_isRelationFilter := Some True \<rparr>)
                (filter (\<lambda>a. a_name a \<in> set ([''AND'', ''OR'', ''NOT'']
                     @ map f_name (filter (\<lambda>f. f_kind f = Relation \<and> \<not> f_isList f)
                                     (m_fields model))))
                   (i_args (inputTypes (schema d) ! i)))"
proof -
  have same: "(\<lambda>f. (f_kind f = Relation \<and> f_isList f) \<or> (f_kind f \<noteq> Relation \<and> \<not> f_isList f))
      = synthesized"
    by (auto simp: synthesized_def fun_eq_iff)
  from assms(1) have "inputTypes (schema (transformWhereInputTypes d)) ! i
      = pushedType (models (datamodel d)) (inputTypes (schema d) ! i)"
    by (rule where_inputTypes_nth)
  with pushedType_resolved [OF assms(2) assms(3)] show ?thesis
    by (simp add: same Let_def whereFieldArg_name)
qed

theorem where_synthesized_fields_witness:
  "map a_name (take 2 (i_args (inputTypes (schema (transformWhereInputTypes blogDocument)) ! 2)))
     = [''id'', ''status'']
   \<and> map a_name (drop 2 (i_args (inputTypes (schema (transformWhereInputTypes blogDocument)) ! 2)))
     = [''author'']"
proof -
  have len: "2 < length (inputTypes (schema blogDocument))"
    by (simp add: blogDocument_def)
  have name: "i_name (inputTypes (schema blogDocument) ! 2) = m_name postModel @ ''WhereInput''"
    by (simp add: blogDocument_def plainType_def postModel_def)
  have found: "find (\<lambda>m. m_name m = m_name postModel) (models (datamodel blogDocument)) = Some postModel"
    by (simp add: blogDocument_def userModel_def postModel_def)
  have args: "i_args (inputTypes (schema blogDocument) ! 2) = [plainArg ''author'' ''UserWhereInput'']"
    by (simp add: blogDocument_def plainType_def)
  have fs: "filter (\<lambda>f. (f_kind f = Relation \<and> f_isList f)
                  \<or> (f_kind f \<noteq> Relation \<and> \<not> f_isList f)) (m_fields postModel)
      = [m_fields postModel ! 0, m_fields postModel ! 2]"
    by (simp add: postModel_def)
  have two: "length [m_fields postModel ! 0, m_fields postModel ! 2] = 2"
    by simp
  note fact = where_synthesized_fields [OF len name found, unfolded Let_def fs two args]
  from fact show ?thesis
    by (simp add: postModel_def plainArg_def whereFieldArg_name)
qed

text \<open>
  C10. Every synthesized arg of a processed where type carries the field's name
  and the flags \<open>isRequired\<close>, \<open>isList\<close>, \<open>isScalar\<close>, \<open>isEnum\<close> and
  \<open>isRelationFilter\<close> all false, whatever the field's own \<open>isRequired\<close>,
  \<open>isList\<close> and \<open>kind\<close> are.
\<close>

theorem where_synthesized_arg_flags:
  assumes "i < length (inputTypes (schema d))"
    and "i_name (inputTypes (schema d) ! i) = m_name model @ ''WhereInput''"
    and "find (\<lambda>m. m_name m = m_name model) (models (datamodel d)) = Some model"
    and "k < length (filter synthesized (m_fields model))"
  shows "let a = i_args (inputTypes (schema (transformWhereInputTypes d)) ! i) ! k
         in a_name a = f_name (filter synthesized (m_fields model) ! k)
          \<and> a_isRequired a = False \<and> a_isList a = False \<and> a_isScalar a = False
          \<and> a_isEnum a = False \<and> a_isRelationFilter a = Some False"
proof -
  from assms(1) have "inputTypes (schema (transformWhereInputTypes d)) ! i
      = pushedType (models (datamodel d)) (inputTypes (schema d) ! i)"
    by (rule where_inputTypes_nth)
  with pushedType_resolved [OF assms(2) assms(3)] assms(4) show ?thesis
    by (simp add: Let_def nth_append whereFieldArg_def)
qed

theorem where_synthesized_arg_flags_witness:
  "a_name (i_args (inputTypes (schema (transformWhereInputTypes blogDocument)) ! 0) ! 0) = ''id''
   \<and> a_isRequired (i_args (inputTypes (schema (transformWhereInputTypes blogDocument)) ! 0) ! 0) = False
   \<and> a_isScalar (i_args (inputTypes (schema (transformWhereInputTypes blogDocument)) ! 0) ! 0) = False"
proof -
  have len: "0 < length (inputTypes (schema blogDocument))"
    by (simp add: blogDocument_def)
  have name: "i_name (inputTypes (schema blogDocument) ! 0) = m_name userModel @ ''WhereInput''"
    by (simp add: blogDocument_def plainType_def userModel_def)
  have found: "find (\<lambda>m. m_name m = m_name userModel) (models (datamodel blogDocument)) = Some userModel"
    by (simp add: blogDocument_def userModel_def postModel_def)
  have fs: "filter synthesized (m_fields userModel) = take 3 (m_fields userModel)"
    by (simp add: userModel_def synthesized_def)
  have k: "0 < length (filter synthesized (m_fields userModel))"
    by (simp add: fs) (simp add: userModel_def)
  from where_synthesized_arg_flags [OF len name found k] show ?thesis
    by (simp add: Let_def fs) (simp add: userModel_def)
qed

text \<open>
  C4. Two fields that get synthesized args (in the same or in two processed
  where types) and share base type and effective nullability have args whose
  type unions name the same filter type, \<open>getFilterName\<close> of the base type and
  the nullability; the types appended after the loop are the values of the
  cache, their names are pairwise distinct, and exactly one of them carries
  that name.
\<close>

theorem where_filter_type_shared:
  assumes "i < length (inputTypes (schema d))"
    and "i_name (inputTypes (schema d) ! i) = m_name mi @ ''WhereInput''"
    and "find (\<lambda>m. m_name m = m_name mi) (models (datamodel d)) = Some mi"
    and "f \<in> set (m_fields mi)" and "synthesized f"
    and "j < length (inputTypes (schema d))"
    and "i_name (inputTypes (schema d) ! j) = m_name mj @ ''WhereInput''"
    and "find (\<lambda>m. m_name m = m_name mj) (models (datamodel d)) = Some mj"
    and "g \<in> set (m_fields mj)" and "synthesized g"
    and "f_type f = f_type g"
    and "(f_isRequired f \<or> f_kind f = Relation) = (f_isRequired g \<or> f_kind g = Relation)"
  shows "let out = inputTypes (schema (transformWhereInputTypes d));
             appended = drop (length (inputTypes (schema d))) out;
             n = (if f_isRequired f \<or> f_kind f = Relation then [] else ''Nullable'')
                   @ f_type f @ ''Filter'';
             af = fst (whereFieldArg [] f);
             ag = fst (whereFieldArg [] g)
         in af \<in> set (i_args (out ! i)) \<and> a_name af = f_name f
          \<and> ag \<in> set (i_args (out ! j)) \<and> a_name ag = f_name g
          \<and> a_type af = (if f_kind f \<noteq> Relation then [f_type f] else []) @ [n]
                          @ (if \<not> f_isRequired f \<and> f_kind f \<noteq> Relation then [''null''] else [])
          \<and> a_type ag = (if f_kind g \<noteq> Relation then [f_type g] else []) @ [n]
                          @ (if \<not> f_isRequired g \<and> f_kind g \<noteq> Relation then [''null''] else [])
          \<and> appended = Object_values (snd (foldl (whereStep (models (datamodel d))) ([], [])
                                              (inputTypes (schema d))))
          \<and> distinct (map i_name appended)
          \<and> length (filter (\<lambda>t. i_name t = n) appended) = 1"
proof -
  let ?ft = "snd (foldl (whereStep (models (datamodel d))) ([], []) (inputTypes (schema d)))"
  have n: "(if f_isRequired f \<or> f_kind f = Relation then [] else ''Nullable'') @ f_type f @ ''Filter''
      = filterKey f"
    by (simp add: getFilterName_def)
  from assms(11,12) have same: "filterKey g = filterKey f" by simp
  note cache = where_cache [of "models (datamodel d)" "inputTypes (schema d)"]
  from cache have names: "map i_name (map snd ?ft) = map fst ?ft" by simp
  with cache have dist: "distinct (map i_name (Object_values ?ft))"
    by (simp only: Object_values_def)
  have key: "filterKey f \<in> fst ` set ?ft"
    by (rule where_key_cached [OF assms(1-5)])
  have once: "length (filter (\<lambda>t. i_name t = filterKey f) (Object_values ?ft)) = 1"
    unfolding Object_values_def
    by (rule one_named [OF conjunct1 [OF cache] conjunct2 [OF cache] key])
  show ?thesis
    unfolding Let_def n where_appended
    using where_arg_present [OF assms(1-5)] where_arg_present [OF assms(6-10)] dist once
    by (simp add: whereFieldArg_name whereFieldArg_type same)
qed

theorem where_filter_type_shared_witness:
  "length (filter (\<lambda>t. i_name t = ''IDFilter'')
     (drop 7 (inputTypes (schema (transformWhereInputTypes blogDocument))))) = 1"
proof -
  have len: "0 < length (inputTypes (schema blogDocument))" "2 < length (inputTypes (schema blogDocument))"
    by (simp_all add: blogDocument_def)
  have name0: "i_name (inputTypes (schema blogDocument) ! 0) = m_name userModel @ ''WhereInput''"
    by (simp add: blogDocument_def plainType_def userModel_def)
  have name2: "i_name (inputTypes (schema blogDocument) ! 2) = m_name postModel @ ''WhereInput''"
    by (simp add: blogDocument_def plainType_def postModel_def)
  have found0: "find (\<lambda>m. m_name m = m_name userModel) (models (datamodel blogDocument)) = Some userModel"
    by (simp add: blogDocument_def userModel_def postModel_def)
  have found2: "find (\<lambda>m. m_name m = m_name postModel) (models (datamodel blogDocument)) = Some postModel"
    by (simp add: blogDocument_def userModel_def postModel_def)
  let ?f = "m_fields userModel ! 0" and ?g = "m_fields postModel ! 0"
  have f: "?f \<in> set (m_fields userModel)" "synthesized ?f"
    by (simp_all add: userModel_def synthesized_def)
  have g: "?g \<in> set (m_fields postModel)" "synthesized ?g"
    by (simp_all add: postModel_def synthesized_def)
  have ty: "f_type ?f = f_type ?g"
    by (simp add: userModel_def postModel_def)
  have req: "(f_isRequired ?f \<or> f_kind ?f = Relation) = (f_isRequired ?g \<or> f_kind ?g = Relation)"
    by (simp add: userModel_def postModel_def)
  have seven: "length (inputTypes (schema blogDocument)) = 7"
    by (simp add: blogDocument_def)
  have n: "(if f_isRequired ?f \<or> f_kind ?f = Relation then [] else ''Nullable'') @ f_type ?f @ ''Filter''
      = ''IDFilter''"
    by (simp add: userModel_def)
  note fact = where_filter_type_shared [OF len(1) name0 found0 f len(2) name2 found2 g ty req,
      unfolded Let_def seven n]
  from fact show ?thesis by blast
qed

text \<open>
  C1. The spec's scenario: the first model is \<open>User\<close> with \<open>id: ID!\<close>,
  \<open>name: String\<close>, \<open>posts: Post[]\<close> and \<open>profile: Profile\<close>, and the only input
  type is \<open>UserWhereInput\<close> with original args named \<open>AND\<close>, \<open>OR\<close>, \<open>NOT\<close> and
  \<open>profile\<close> (whatever else those args and the document hold). The where pass
  returns the where type with args \<open>id\<close>, \<open>name\<close>, \<open>posts\<close>, \<open>AND\<close>, \<open>OR\<close>, \<open>NOT\<close>,
  \<open>profile\<close> in this order, followed by the filter types \<open>IDFilter\<close>,
  \<open>NullableStringFilter\<close> and \<open>PostFilter\<close>.
\<close>

theorem where_user_scenario:
  "inputTypes (schema (transformWhereInputTypes
      \<lparr> datamodel = \<lparr> models = userModel # ms \<rparr>, mappings = mp,
        schema = sch\<lparr> inputTypes :=
          [t\<lparr> i_name := ''UserWhereInput'',
              i_args := [a1\<lparr> a_name := ''AND'' \<rparr>, a2\<lparr> a_name := ''OR'' \<rparr>,
                         a3\<lparr> a_name := ''NOT'' \<rparr>, a4\<lparr> a_name := ''profile'' \<rparr>] \<rparr>] \<rparr> \<rparr>))
   = [\<lparr> i_name = ''UserWhereInput'',
        i_args =
          [\<lparr> a_name = ''id'', a_type = [''ID'', ''IDFilter''], a_isList = False,
             a_isRequired = False, a_isEnum = False, a_isScalar = False,
             a_isRelationFilter = Some False \<rparr>,
           \<lparr> a_name = ''name'', a_type = [''String'', ''NullableStringFilter'', ''null''],
             a_isList = False, a_isRequired = False, a_isEnum = False, a_isScalar = False,
             a_isRelationFilter = Some False \<rparr>,
           \<lparr> a_name = ''posts'', a_type = [''PostFilter''], a_isList = False,
             a_isRequired = False, a_isEnum = False, a_isScalar = False,
             a_isRelationFilter = Some False \<rparr>,
           a1\<lparr> a_name := ''AND'', a_isRelationFilter := Some True \<rparr>,
           a2\<lparr> a_name := ''OR'', a_isRelationFilter := Some True \<rparr>,
           a3\<lparr> a_name := ''NOT'', a_isRelationFilter := Some True \<rparr>,
           a4\<lparr> a_name := ''profile'', a_isRelationFilter := Some True \<rparr>],
        i_atLeastOne = Some True, i_atMostOne = None,
        i_isWhereType = Some True, i_isOrderType = None \<rparr>,
      makeFilterType ''ID'' True True,
      makeFilterType ''String'' False True,
      \<lparr> i_name = ''PostFilter'',
        i_args =
          [\<lparr> a_name = ''every'', a_type = [''PostWhereInput''], a_isList = False,
             a_isRequired = False, a_isEnum = False, a_isScalar = True,
             a_isRelationFilter = None \<rparr>,
           \<lparr> a_name = ''some'', a_type = [''PostWhereInput''], a_isList = False,
             a_isRequired = False, a_isEnum = False, a_isScalar = True,
             a_isRelationFilter = None \<rparr>,
           \<lparr> a_name = ''none'', a_type = [''PostWhereInput''], a_isList = False,
             a_isRequired = False, a_isEnum = False, a_isScalar = True,
             a_isRelationFilter = None \<rparr>],
        i_atLeastOne = Some True, i_atMostOne = None,
        i_isWhereType = None, i_isOrderType = None \<rparr>]"
proof -
  have ends: "endsWith ''UserWhereInput'' ''WhereInput''"
    by (simp add: endsWith_def)
  have index: "lastIndexOf ''UserWhereInput'' ''WhereInput'' = 4"
    by (simp add: Let_def)
  have strip: "slice ''UserWhereInput'' 0 4 = ''User''"
    by (simp add: slice_def)
  have fields: "filter synthesized (m_fields userModel) = take 3 (m_fields userModel)"
    by (simp add: userModel_def synthesized_def)
  have name: "m_name userModel = ''User''"
    by (simp add: userModel_def)
  have post: "makeFilterType ''Post'' False False =
      \<lparr> i_name = ''PostFilter'',
        i_args = getScalarArgs [''every'', ''some'', ''none''] [''PostWhereInput''] False,
        i_atLeastOne = Some True, i_atMostOne = None,
        i_isWhereType = None, i_isOrderType = None \<rparr>"
    by (simp add: makeFilterType_def getFilterName_def getRelationFilterArgs_def
        getWhereInputName_def)
  have cache: "snd (whereFieldArgs [] (take 3 (m_fields userModel)))
      = [(''IDFilter'', makeFilterType ''ID'' True True),
         (''NullableStringFilter'', makeFilterType ''String'' False True),
         (''PostFilter'', makeFilterType ''Post'' False False)]"
    by (simp add: userModel_def split_def Let_def whereFieldArg_snd getFilterName_def)
  have args: "fst (whereFieldArgs [] (take 3 (m_fields userModel)))
      = [\<lparr> a_name = ''id'', a_type = [''ID'', ''IDFilter''], a_isList = False,
             a_isRequired = False, a_isEnum = False, a_isScalar = False,
             a_isRelationFilter = Some False \<rparr>,
           \<lparr> a_name = ''name'', a_type = [''String'', ''NullableStringFilter'', ''null''],
             a_isList = False, a_isRequired = False, a_isEnum = False, a_isScalar = False,
             a_isRelationFilter = Some False \<rparr>,
           \<lparr> a_name = ''posts'', a_type = [''PostFilter''], a_isList = False,
             a_isRequired = False, a_isEnum = False, a_isScalar = False,
             a_isRelationFilter = Some False \<rparr>]"
    by (simp add: whereFieldArgs_fst) (simp add: userModel_def whereFieldArg_def getFilterName_def)
  have white: "map f_name (filter (\<lambda>f. f_kind f = Relation \<and> \<not> f_isList f) (m_fields userModel))
      = [''profile'']"
    by (simp add: userModel_def)
  show ?thesis
    by (simp add: transformWhereInputTypes_def whereStep_def Let_def split_def Object_values_def
        ends index strip name fields cache args white post getScalarArgs_def getScalarArg_def)
qed

theorem where_user_scenario_witness:
  "map i_name (inputTypes (schema (transformWhereInputTypes
      \<lparr> datamodel = \<lparr> models = userModel # [postModel] \<rparr>, mappings = (),
        schema = (schema blogDocument)\<lparr> inputTypes :=
          [(plainType ''X'' [])\<lparr> i_name := ''UserWhereInput'',
              i_args := [(plainArg ''a'' ''A'')\<lparr> a_name := ''AND'' \<rparr>,
                         (plainArg ''b'' ''B'')\<lparr> a_name := ''OR'' \<rparr>,
                         (plainArg ''c'' ''C'')\<lparr> a_name := ''NOT'' \<rparr>,
                         (plainArg ''d'' ''D'')\<lparr> a_name := ''profile'' \<rparr>] \<rparr>] \<rparr> \<rparr>)))
   = [''UserWhereInput'', ''IDFilter'', ''NullableStringFilter'', ''PostFilter'']"
  by (simp only: where_user_scenario) (simp add: makeFilterType_def getFilterName_def)

section \<open>The filter type factory: claims\<close>

text \<open>
  C2, as amended. On its enum branch (\<open>isEnum = true\<close>) \<open>getScalarFilterArgs\<close>
  returns exactly \<open>equals\<close>, \<open>not\<close>, \<open>in\<close>, \<open>notIn\<close>, the last two list-valued:
  the inclusion operators are there and the ordering operators \<open>lt\<close>, \<open>lte\<close>,
  \<open>gt\<close>, \<open>gte\<close> are not.
\<close>

theorem enum_filter_operators:
  "getScalarFilterArgs type isRequired True =
     [getScalarArg ''equals'' ([type] @ (if isRequired then [] else [''null''])) False,
      getScalarArg ''not'' ([type] @ (if isRequired then [] else [''null''])
                              @ [getFilterName type isRequired]) False,
      getScalarArg ''in'' [type] True,
      getScalarArg ''notIn'' [type] True]
   \<and> map a_name (getScalarFilterArgs type isRequired True) = [''equals'', ''not'', ''in'', ''notIn'']
   \<and> map a_isList (getScalarFilterArgs type isRequired True) = [False, False, True, True]"
  by (simp add: getScalarFilterArgs_def getBaseFilters_def getInclusionFilters_def
      getScalarArgs_def getScalarArg_def Let_def)

theorem enum_filter_operators_witness:
  "map a_name (getScalarFilterArgs ''Status'' True True) = [''equals'', ''not'', ''in'', ''notIn'']"
  using enum_filter_operators [of "''Status''" True] by blast

text \<open>
  The claim as stated fails: the filter type the where pass builds for the
  required enum field \<open>status: Status\<close> has no operator at all
  (\<open>makeFilterType\<close> calls \<open>getScalarFilterArgs\<close> without \<open>isEnum\<close>), and the enum
  branch itself has no \<open>lt\<close>.
\<close>

theorem enum_filter_operators_counterexample:
  "f_kind (m_fields postModel ! 2) = EnumKind
   \<and> i_args (makeFilterType (f_type (m_fields postModel ! 2))
               (f_isRequired (m_fields postModel ! 2))
               (f_kind (m_fields postModel ! 2) \<noteq> Relation)) = []
   \<and> ''lt'' \<notin> set (map a_name (getScalarFilterArgs ''Status'' True True))"
  by (simp add: postModel_def makeFilterType_def getScalarFilterArgs_def getBaseFilters_def
      getInclusionFilters_def getScalarArgs_def getScalarArg_def Let_def)

section \<open>The order pass and the finisher: claims\<close>

text \<open>
  C3. On an enum named \<open>...OrderByInput\<close> the order pass tests a value with
  \<open>endsWith('ASC')\<close> and cuts it at \<open>lastIndexOf('_ASC')\<close>. The value \<open>ASC\<close> passes
  the test, holds no \<open>_ASC\<close>, and is cut at \<open>-1\<close>: the input type gets an arg
  \<open>AS\<close> that no value ending in \<open>_ASC\<close> stands for.
\<close>

theorem order_suffix_test_mismatch:
  "inputTypes (schema (transformOrderInputTypes
      (blogDocument\<lparr> schema := (schema blogDocument)
         \<lparr> inputTypes := [],
           enums := [\<lparr> e_name = ''UserOrderByInput'',
                      e_values = [''id_ASC'', ''id_DESC'', ''ASC''] \<rparr>] \<rparr> \<rparr>)))
   = [\<lparr> i_name = ''UserOrderByInput'',
        i_args =
          [\<lparr> a_name = ''id'', a_type = [''OrderByArg''], a_isList = False,
             a_isRequired = False, a_isEnum = False, a_isScalar = True,
             a_isRelationFilter = Some False \<rparr>,
           \<lparr> a_name = ''AS'', a_type = [''OrderByArg''], a_isList = False,
             a_isRequired = False, a_isEnum = False, a_isScalar = True,
             a_isRelationFilter = Some False \<rparr>],
        i_atLeastOne = Some True, i_atMostOne = Some True,
        i_isWhereType = None, i_isOrderType = Some True \<rparr>]"
  by (simp add: order_inputTypes orderInputType_def argNames_def endsWith_def slice_def Let_def)

text \<open>
  C5. In the final document no two input types share a name and no two output
  types share a name.
\<close>

theorem final_type_names_unique:
  "distinct (map i_name (inputTypes (schema (transformDmmf d))))
   \<and> distinct (map o_name (outputTypes (schema (transformDmmf d))))"
  by (simp add: final_inputTypes final_outputTypes filterInputTypes_def filterOutputTypes_def
      distinct_map_filter uniqBy_distinct)

theorem final_type_names_unique_witness:
  "distinct (map i_name (inputTypes (schema (transformDmmf blogDocument))))"
  using final_type_names_unique [of blogDocument] by blast

text \<open>
  C7, as amended. When no enum of the input is named \<open>OrderByArg\<close>, the final
  document has exactly one enum of that name, with the values \<open>asc\<close> and \<open>desc\<close>,
  however many \<open>OrderByInput\<close> enums the input holds.
\<close>

theorem final_OrderByArg_once:
  assumes "\<forall>e\<in>set (enums (schema d)). e_name e \<noteq> ''OrderByArg''"
  shows "filter (\<lambda>e. e_name e = ''OrderByArg'') (enums (schema (transformDmmf d)))
           = [\<lparr> e_name = ''OrderByArg'', e_values = [''asc'', ''desc''] \<rparr>]"
proof -
  from assms have "filter (\<lambda>e. e_name e = ''OrderByArg'')
      (filter (\<lambda>e. \<not> endsWith (e_name e) ''OrderByInput'') (enums (schema d))) = []"
    by (simp add: filter_empty_conv)
  then show ?thesis
    by (simp add: final_enums OrderByArg_def)
qed

theorem final_OrderByArg_once_witness:
  "filter (\<lambda>e. e_name e = ''OrderByArg'') (enums (schema (transformDmmf blogDocument)))
     = [\<lparr> e_name = ''OrderByArg'', e_values = [''asc'', ''desc''] \<rparr>]"
proof -
  have "\<forall>e\<in>set (enums (schema blogDocument)). e_name e \<noteq> ''OrderByArg''"
    by (simp add: blogDocument_def)
  then show ?thesis by (rule final_OrderByArg_once)
qed

text \<open>
  The claim as stated fails on a document that already holds an enum named
  \<open>OrderByArg\<close>: that name does not end in \<open>OrderByInput\<close>, the enum passes
  through behind the one the order pass puts first, and enums are not
  deduplicated.
\<close>

theorem final_OrderByArg_once_counterexample:
  "map e_name (enums (schema (transformDmmf
      (blogDocument\<lparr> schema := (schema blogDocument)
         \<lparr> enums := [\<lparr> e_name = ''OrderByArg'', e_values = [''asc'', ''desc''] \<rparr>] \<rparr> \<rparr>))))
   = [''OrderByArg'', ''OrderByArg'']"
  by (simp add: final_enums OrderByArg_def endsWith_def)

text \<open>
  C8. The final document holds no input or output type whose name contains
  \<open>Subscription\<close>, no output type whose name ends in \<open>PreviousValues\<close>, and no
  input type named \<open>MutationType\<close>.
\<close>

theorem final_no_change_event_types:
  "(\<forall>t\<in>set (inputTypes (schema (transformDmmf d))).
      \<not> sublist ''Subscription'' (i_name t) \<and> i_name t \<noteq> ''MutationType'')
   \<and> (\<forall>t\<in>set (outputTypes (schema (transformDmmf d))).
      \<not> sublist ''Subscription'' (o_name t) \<and> \<not> suffix ''PreviousValues'' (o_name t))"
  by (simp add: final_inputTypes final_outputTypes filterInputTypes_def filterOutputTypes_def
      includes_str_iff endsWith_iff)

theorem final_no_change_event_types_witness:
  "plainType ''MutationType'' [] \<notin> set (inputTypes (schema (transformDmmf blogDocument)))
   \<and> \<lparr> o_name = ''UserPreviousValues'', o_rest = () \<rparr>
       \<notin> set (outputTypes (schema (transformDmmf blogDocument)))"
proof -
  have "\<not> suffix ''PreviousValues'' ''UserPreviousValues'' \<Longrightarrow> False"
    by (simp add: suffix_def)
  with final_no_change_event_types [of blogDocument] show ?thesis
    by (auto simp: plainType_def)
qed

end
